theory Spec2Isabelle
  imports Complex_Main
begin

section \<open>Data model (app/models.py)\<close>

text \<open>
  Python's \<open>Any\<close> values that flow through the executor: step inputs, step results and the
  JSON payload of a remote job. A \<open>dict\<close> with string keys is an association list in
  insertion order, without duplicate keys.
\<close>

datatype pyval =
    VNone
  | VBool bool
  | VInt int
  | VStr string
  | VList "pyval list"
  | VDict "(string \<times> pyval) list"

type_synonym pydict = "(string \<times> pyval) list"

datatype TaskStatus = PENDING | PLANNING | EXECUTING | COMPLETED | FAILED

datatype AgentType = COORDINATOR | PLANNER | EXECUTOR | RESEARCHER

text \<open>
  \<open>ExecutionStep\<close>, \<open>ExecutionPlan\<close>, \<open>TaskResponse\<close> and \<open>WindmillJobResult\<close> all have
  fields called \<open>status\<close>, \<open>result\<close> and \<open>error\<close>; the records prefix them with the class
  they belong to. Python's \<open>None\<close> in an \<open>Optional[Any]\<close> field is \<open>VNone\<close>; in an
  \<open>Optional[str]\<close> field it is \<open>None\<close>.
\<close>

record ExecutionStep =
  step_number :: int
  description :: string
  agent :: AgentType
  script_path :: "string option"
  input_params :: pydict
  depends_on :: "int list"
  step_status :: TaskStatus
  step_result :: pyval
  step_error :: "string option"

record ExecutionPlan =
  task_id :: string
  user_id :: string
  original_request :: string
  skill :: "string option"
  steps :: "ExecutionStep list"
  created_at :: real
  plan_status :: TaskStatus

record TaskResponse =
  resp_task_id :: string
  resp_status :: TaskStatus
  resp_result :: pyval
  resp_error :: "string option"
  execution_time_ms :: int
  steps_completed :: int
  total_steps :: int

record WindmillJobResult =
  job_id :: string
  job_status :: string
  job_result :: pyval
  job_error :: "string option"
  duration_ms :: int

section \<open>Python primitives used by the code\<close>

text \<open>\<open>str(n)\<close> on an integer, as the f-strings of the source render it.\<close>

definition digit_char :: "nat \<Rightarrow> char" where
  "digit_char d = ''0123456789'' ! d"

fun str_nat :: "nat \<Rightarrow> string" where
  "str_nat n = (if n < 10 then [digit_char n] else str_nat (n div 10) @ [digit_char (n mod 10)])"

declare str_nat.simps [simp del]

definition str_int :: "int \<Rightarrow> string" where
  "str_int i = (if i < 0 then CHR ''-'' # str_nat (nat (- i)) else str_nat (nat i))"

text \<open>\<open>int(x)\<close> on a float: truncation towards zero.\<close>

definition py_int :: "real \<Rightarrow> int" where
  "py_int x = (if 0 \<le> x then \<lfloor>x\<rfloor> else \<lceil>x\<rceil>)"

text \<open>\<open>s.strip('"')\<close>: double quotes removed from both ends.\<close>

definition strip_quotes :: "string \<Rightarrow> string" where
  "strip_quotes s = rev (dropWhile (\<lambda>c. c = CHR 0x22) (rev (dropWhile (\<lambda>c. c = CHR 0x22) s)))"

text \<open>\<open>d[k] = v\<close>: an existing key keeps its position and takes the new value, a new key is
  appended.\<close>

fun dict_set :: "pydict \<Rightarrow> string \<Rightarrow> pyval \<Rightarrow> pydict" where
  "dict_set [] k v = [(k, v)]"
| "dict_set ((k', v') # d) k v = (if k' = k then (k, v) # d else (k', v') # dict_set d k v)"

definition dict_get :: "pydict \<Rightarrow> string \<Rightarrow> pyval option" where
  "dict_get d k = map_of d k"

section \<open>The environment: event-loop clock and HTTP backend\<close>

text \<open>
  The client awaits three things: a POST, a GET and \<open>asyncio.sleep\<close>. The world holds the
  clock (seconds, idealised as a real number) and, for the \<open>n\<close>-th POST and the \<open>n\<close>-th GET
  of the run, how long the call takes and how it ends, as a function of the request. A
  POST either passes \<open>raise_for_status\<close>, giving the response text, or raises an
  \<open>httpx.HTTPError\<close> (a transport error, or the \<open>HTTPStatusError\<close> of \<open>raise_for_status\<close>)
  whose \<open>str\<close> is carried. A GET gives a status code and a body, or raises an
  \<open>httpx.HTTPError\<close>; \<open>response.json()\<close> on a body that is not JSON raises a decoding
  error, which is not an \<open>HTTPError\<close>.
\<close>

datatype post_outcome = PostOk string | PostHTTPError string

datatype body = Json pyval | NotJson string

datatype get_outcome = GetResponse nat body | GetHTTPError string

record world =
  now :: real
  posts :: nat
  polls :: nat
  post_reply :: "nat \<Rightarrow> string \<Rightarrow> pydict \<Rightarrow> real \<times> post_outcome"
  get_reply :: "nat \<Rightarrow> string \<Rightarrow> real \<times> get_outcome"

definition client_post :: "world \<Rightarrow> string \<Rightarrow> pydict \<Rightarrow> post_outcome \<times> world" where
  "client_post w url args =
     (let (latency, outcome) = post_reply w (posts w) url args
      in (outcome, w\<lparr>now := now w + latency, posts := posts w + 1\<rparr>))"

definition client_get :: "world \<Rightarrow> string \<Rightarrow> get_outcome \<times> world" where
  "client_get w url =
     (let (latency, outcome) = get_reply w (polls w) url
      in (outcome, w\<lparr>now := now w + latency, polls := polls w + 1\<rparr>))"

definition sleep :: "real \<Rightarrow> world \<Rightarrow> world" where
  "sleep d w = w\<lparr>now := now w + d\<rparr>"

section \<open>The remote-job client (app/clients/windmill_client.py)\<close>

record WindmillClient =
  base_url :: string
  token :: string
  workspace :: string

definition run_url :: "WindmillClient \<Rightarrow> string \<Rightarrow> string" where
  "run_url self path = base_url self @ ''/api/w/'' @ workspace self @ ''/jobs/run/p/'' @ path"

definition result_url :: "WindmillClient \<Rightarrow> string \<Rightarrow> string" where
  "result_url self jid =
     base_url self @ ''/api/w/'' @ workspace self @ ''/jobs/completed/get_result/'' @ jid"

definition timeout_result :: "string \<Rightarrow> int \<Rightarrow> WindmillJobResult" where
  "timeout_result jid timeout =
     \<lparr>job_id = jid, job_status = ''timeout'', job_result = VNone,
      job_error = Some (''Job timed out after '' @ str_int timeout @ ''s''), duration_ms = 0\<rparr>"

definition completed_result :: "string \<Rightarrow> pyval \<Rightarrow> int \<Rightarrow> WindmillJobResult" where
  "completed_result jid v ms =
     \<lparr>job_id = jid, job_status = ''completed'', job_result = v, job_error = None,
      duration_ms = ms\<rparr>"

definition unexpected_result :: "string \<Rightarrow> nat \<Rightarrow> WindmillJobResult" where
  "unexpected_result jid code =
     \<lparr>job_id = jid, job_status = ''failed'', job_result = VNone,
      job_error = Some (''Unexpected status: '' @ str_nat code), duration_ms = 0\<rparr>"

text \<open>
  The \<open>while True\<close> loop of \<open>_wait_for_job\<close>. An exception that leaves the function is
  \<open>Inl\<close> of its message; a loop that never returns is \<open>None\<close>.
\<close>

partial_function (option) poll_loop ::
  "WindmillClient \<Rightarrow> string \<Rightarrow> int \<Rightarrow> real \<Rightarrow> world \<Rightarrow> ((string + WindmillJobResult) \<times> world) option"
where
  "poll_loop self jid timeout start_time w =
     (let elapsed = now w - start_time in
      if elapsed > real_of_int timeout then Some (Inr (timeout_result jid timeout), w)
      else
        (case client_get w (result_url self jid) of
           (GetResponse code b, w1) \<Rightarrow>
             if code = 200 then
               (case b of
                  Json v \<Rightarrow> Some (Inr (completed_result jid v (py_int (elapsed * 1000))), w1)
                | NotJson e \<Rightarrow> Some (Inl e, w1))
             else if code = 404 then poll_loop self jid timeout start_time (sleep 1 w1)
             else Some (Inr (unexpected_result jid code), w1)
         | (GetHTTPError e, w1) \<Rightarrow> poll_loop self jid timeout start_time (sleep 1 w1)))"

definition wait_for_job ::
  "WindmillClient \<Rightarrow> string \<Rightarrow> int \<Rightarrow> world \<Rightarrow> ((string + WindmillJobResult) \<times> world) option"
where
  "wait_for_job self jid timeout w = poll_loop self jid timeout (now w) w"

definition run_script ::
  "WindmillClient \<Rightarrow> string \<Rightarrow> pydict \<Rightarrow> bool \<Rightarrow> int \<Rightarrow> world
     \<Rightarrow> ((string + WindmillJobResult) \<times> world) option"
where
  "run_script self path args wait timeout w =
     (case client_post w (run_url self path) args of
        (PostOk text, w1) \<Rightarrow>
          (let jid = strip_quotes text in
           if \<not> wait then
             Some (Inr \<lparr>job_id = jid, job_status = ''running'', job_result = VNone,
                        job_error = None, duration_ms = 0\<rparr>, w1)
           else wait_for_job self jid timeout w1)
      | (PostHTTPError e, w1) \<Rightarrow>
          Some (Inr \<lparr>job_id = '''', job_status = ''failed'', job_result = VNone,
                     job_error = Some e, duration_ms = 0\<rparr>, w1))"

section \<open>The step scheduler (app/agents/executor.py)\<close>

text \<open>
  \<open>_check_dependencies\<close>: every dependency is a key of the results gathered so far.
  \<open>step_results\<close> is a dictionary from step numbers to results.
\<close>

fun check_dependencies_loop :: "int list \<Rightarrow> (int \<rightharpoonup> pyval) \<Rightarrow> bool" where
  "check_dependencies_loop [] completed_results = True"
| "check_dependencies_loop (dep # deps) completed_results =
     (if completed_results dep = None then False
      else check_dependencies_loop deps completed_results)"

definition check_dependencies :: "ExecutionStep \<Rightarrow> (int \<rightharpoonup> pyval) \<Rightarrow> bool" where
  "check_dependencies step completed_results =
     check_dependencies_loop (depends_on step) completed_results"

text \<open>The loop of \<open>_execute_step\<close> that injects the results of earlier steps.\<close>

definition result_key :: "int \<Rightarrow> string" where
  "result_key dep = ''step_'' @ str_int dep @ ''_result''"

fun inject_results :: "int list \<Rightarrow> (int \<rightharpoonup> pyval) \<Rightarrow> pydict \<Rightarrow> pydict" where
  "inject_results [] previous_results params = params"
| "inject_results (dep # deps) previous_results params =
     (case previous_results dep of
        Some v \<Rightarrow> inject_results deps previous_results (dict_set params (result_key dep) v)
      | None \<Rightarrow> inject_results deps previous_results params)"

definition prepared_input :: "ExecutionStep \<Rightarrow> (int \<rightharpoonup> pyval) \<Rightarrow> pydict" where
  "prepared_input step previous_results =
     inject_results (depends_on step) previous_results (input_params step)"

text \<open>
  \<open>_execute_step\<close>. A raised exception is \<open>Inl\<close> of its message. \<open>if step.script_path\<close> is
  false for \<open>None\<close> and for the empty string; \<open>result.error or "..."\<close> takes the generic
  message for \<open>None\<close> and for the empty string.
\<close>

definition failure_message :: "WindmillJobResult \<Rightarrow> string" where
  "failure_message r =
     (case job_error r of
        None \<Rightarrow> ''Script execution failed''
      | Some e \<Rightarrow> if e = [] then ''Script execution failed'' else e)"

definition execute_step ::
  "WindmillClient \<Rightarrow> ExecutionStep \<Rightarrow> (int \<rightharpoonup> pyval) \<Rightarrow> world
     \<Rightarrow> ((string + pyval) \<times> world) option"
where
  "execute_step windmill_client step previous_results w =
     (let params = prepared_input step previous_results in
      case script_path step of
        None \<Rightarrow> Some (Inr (VDict params), w)
      | Some path \<Rightarrow>
          if path = [] then Some (Inr (VDict params), w)
          else
            (case run_script windmill_client path params True 300 w of
               None \<Rightarrow> None
             | Some (Inl e, w1) \<Rightarrow> Some (Inl e, w1)
             | Some (Inr r, w1) \<Rightarrow>
                 if job_status r = ''completed'' then Some (Inr (job_result r), w1)
                 else Some (Inl (failure_message r), w1)))"

text \<open>The local variables of \<open>_execute_plan\<close> that the loop over the steps updates.\<close>

record loop_state =
  completed_steps :: int
  step_results :: "int \<rightharpoonup> pyval"
  final_result :: pyval
  error :: "string option"

definition initial_state :: loop_state where
  "initial_state =
     \<lparr>completed_steps = 0, step_results = Map.empty, final_result = VNone, error = None\<rparr>"

text \<open>
  The \<open>for step in plan.steps\<close> loop. The steps are objects that the loop mutates; the
  function returns the list of steps as the loop leaves it. \<open>break\<close> returns with the rest
  of the list untouched.
\<close>

fun execute_steps ::
  "WindmillClient \<Rightarrow> ExecutionStep list \<Rightarrow> loop_state \<Rightarrow> world
     \<Rightarrow> (ExecutionStep list \<times> loop_state \<times> world) option"
where
  "execute_steps windmill_client [] st w = Some ([], st, w)"
| "execute_steps windmill_client (step # rest) st w =
     (if \<not> check_dependencies step (step_results st) then
        Some (step # rest,
              st\<lparr>error := Some (''Step '' @ str_int (step_number step) @ '' dependencies not met'')\<rparr>,
              w)
      else
        (let step1 = step\<lparr>step_status := EXECUTING\<rparr> in
         case execute_step windmill_client step1 (step_results st) w of
           None \<Rightarrow> None
         | Some (Inr r, w1) \<Rightarrow>
             (let step2 = step1\<lparr>step_status := COMPLETED, step_result := r\<rparr>;
                  st1 = st\<lparr>step_results := (step_results st)(step_number step \<mapsto> r),
                           completed_steps := completed_steps st + 1,
                           final_result := r\<rparr>
              in case execute_steps windmill_client rest st1 w1 of
                   None \<Rightarrow> None
                 | Some (rest', st2, w2) \<Rightarrow> Some (step2 # rest', st2, w2))
         | Some (Inl e, w1) \<Rightarrow>
             Some (step1\<lparr>step_status := FAILED, step_error := Some e\<rparr> # rest,
                   st\<lparr>error := Some (''Step '' @ str_int (step_number step) @ '' failed: '' @ e)\<rparr>,
                   w1)))"

text \<open>
  \<open>_execute_plan\<close>. \<open>not error\<close> is true for \<open>None\<close> and for the empty string. The wall
  clock \<open>time.time()\<close> is read off the same clock as the event loop's.
\<close>

definition execute_plan ::
  "WindmillClient \<Rightarrow> ExecutionPlan \<Rightarrow> world \<Rightarrow> (TaskResponse \<times> ExecutionPlan \<times> world) option"
where
  "execute_plan windmill_client plan w =
     (let start_time = now w;
          plan1 = plan\<lparr>plan_status := EXECUTING\<rparr>
      in case execute_steps windmill_client (steps plan1) initial_state w of
           None \<Rightarrow> None
         | Some (steps', st, w') \<Rightarrow>
             Some (\<lparr>resp_task_id = task_id plan1,
                    resp_status =
                      (if error st = None \<or> error st = Some [] then COMPLETED else FAILED),
                    resp_result = final_result st,
                    resp_error = error st,
                    execution_time_ms = py_int ((now w' - start_time) * 1000),
                    steps_completed = completed_steps st,
                    total_steps = int (length (steps plan1))\<rparr>,
                   plan1\<lparr>steps := steps'\<rparr>,
                   w'))"

section \<open>Notions used to state the properties\<close>

text \<open>Reading a decimal numeral back, the inverse of \<open>str_nat\<close>.\<close>

definition digit_val :: "char \<Rightarrow> nat" where
  "digit_val c = of_char c - 48"

definition num_val :: "string \<Rightarrow> nat" where
  "num_val cs = foldl (\<lambda>a c. 10 * a + digit_val c) 0 cs"

text \<open>
  The answers to a status query after which \<open>_wait_for_job\<close> sleeps and polls again: a 404
  and a transport error.
\<close>

fun still_running :: "get_outcome \<Rightarrow> bool" where
  "still_running (GetResponse code b) = (code = 404)"
| "still_running (GetHTTPError e) = True"

text \<open>The world after one more, and after \<open>n\<close> more, rounds of GET and \<open>sleep(1)\<close>.\<close>

definition poll_again :: "WindmillClient \<Rightarrow> string \<Rightarrow> world \<Rightarrow> world" where
  "poll_again self jid w = sleep 1 (snd (client_get w (result_url self jid)))"

fun after_polls :: "WindmillClient \<Rightarrow> string \<Rightarrow> nat \<Rightarrow> world \<Rightarrow> world" where
  "after_polls self jid 0 w = w"
| "after_polls self jid (Suc n) w = after_polls self jid n (poll_again self jid w)"

section \<open>Concrete inputs\<close>

definition example_client :: WindmillClient where
  "example_client = \<lparr>base_url = ''http://windmill:8000'', token = ''secret'', workspace = ''main''\<rparr>"

text \<open>A backend that accepts every job and has its result at the first query.\<close>

definition ready_world :: world where
  "ready_world =
     \<lparr>now = 0, posts = 0, polls = 0,
      post_reply = (\<lambda>n url args. (1 / 2, PostOk ''job-1'')),
      get_reply = (\<lambda>n url. (1 / 4, GetResponse 200 (Json (VDict [(''x'', VInt 1)]))))\<rparr>"


text \<open>A backend that cannot be reached when a job is submitted.\<close>

definition down_world :: world where
  "down_world =
     \<lparr>now = 0, posts = 0, polls = 0,
      post_reply = (\<lambda>n url args. (1 / 2, PostHTTPError ''connection refused'')),
      get_reply = (\<lambda>n url. (1 / 4, GetHTTPError ''connection refused''))\<rparr>"

text \<open>A backend that answers 404 to every query.\<close>

definition never_world :: world where
  "never_world =
     \<lparr>now = 0, posts = 0, polls = 0,
      post_reply = (\<lambda>n url args. (1 / 2, PostOk ''job-1'')),
      get_reply = (\<lambda>n url. (1 / 2, GetResponse 404 (NotJson ''not found'')))\<rparr>"

text \<open>A backend whose first answer, a 200, takes five seconds.\<close>

definition late_world :: world where
  "late_world =
     \<lparr>now = 0, posts = 0, polls = 0,
      post_reply = (\<lambda>n url args. (1 / 2, PostOk ''job-1'')),
      get_reply = (\<lambda>n url. (5, GetResponse 200 (Json (VInt 42))))\<rparr>"

text \<open>A backend that answers every query with a server error.\<close>

definition broken_world :: world where
  "broken_world =
     \<lparr>now = 0, posts = 0, polls = 0,
      post_reply = (\<lambda>n url args. (1 / 2, PostOk ''job-1'')),
      get_reply = (\<lambda>n url. (1 / 4, GetResponse 500 (NotJson ''internal error'')))\<rparr>"

definition new_step :: "int \<Rightarrow> string option \<Rightarrow> pydict \<Rightarrow> int list \<Rightarrow> ExecutionStep" where
  "new_step n path params deps =
     \<lparr>step_number = n, description = ''step'', agent = EXECUTOR, script_path = path,
      input_params = params, depends_on = deps, step_status = PENDING, step_result = VNone,
      step_error = None\<rparr>"

definition new_plan :: "ExecutionStep list \<Rightarrow> ExecutionPlan" where
  "new_plan ss =
     \<lparr>task_id = ''task-1'', user_id = ''user-1'', original_request = ''do it'', skill = None,
      steps = ss, created_at = 0, plan_status = PENDING\<rparr>"

text \<open>
  Step 1 passes its input through; step 2 passes through too, and its caller already uses
  the key under which the result of step 1 is injected; step 3 runs a script on the result
  of step 1; step 4 depends on a step 9 that the plan does not have; step 5 is independent.
\<close>

definition step_a :: ExecutionStep where
  "step_a = new_step 1 None [(''a'', VInt 1)] []"

definition step_b :: ExecutionStep where
  "step_b = new_step 2 None [(''step_1_result'', VStr ''mine''), (''b'', VInt 2)] [1]"

definition step_c :: ExecutionStep where
  "step_c = new_step 3 (Some ''f/job'') [(''c'', VInt 3)] [1]"

definition step_d :: ExecutionStep where
  "step_d = new_step 4 None [] [9]"

definition step_e :: ExecutionStep where
  "step_e = new_step 5 None [(''e'', VInt 5)] []"

text \<open>Step 6 runs a script, depends on step 1, and its caller already uses the key
  \<open>step_1_result\<close>.\<close>

definition step_f :: ExecutionStep where
  "step_f = new_step 6 (Some ''f/job'') [(''step_1_result'', VStr ''mine'')] [1]"

text \<open>A backend that refuses a job whose arguments lack \<open>step_1_result\<close>.\<close>

definition strict_world :: world where
  "strict_world =
     \<lparr>now = 0, posts = 0, polls = 0,
      post_reply = (\<lambda>n url args. (1 / 2, if map_of args ''step_1_result'' = None
                                          then PostHTTPError ''missing upstream result''
                                          else PostOk ''job-1'')),
      get_reply = (\<lambda>n url. (1 / 4, GetResponse 200 (Json (VStr ''done''))))\<rparr>"

text \<open>A backend that refuses a job unless \<open>step_1_result\<close> is the string \<open>mine\<close>.\<close>

definition picky_world :: world where
  "picky_world =
     \<lparr>now = 0, posts = 0, polls = 0,
      post_reply = (\<lambda>n url args. (1 / 2, if map_of args ''step_1_result'' = Some (VStr ''mine'')
                                          then PostOk ''job-1''
                                          else PostHTTPError ''caller value missing'')),
      get_reply = (\<lambda>n url. (1 / 4, GetResponse 200 (Json (VStr ''done''))))\<rparr>"


definition results_1 :: "int \<rightharpoonup> pyval" where
  "results_1 = [1 \<mapsto> VDict [(''a'', VInt 1)]]"

section \<open>Rendering integers\<close>
lemma digit_cases: "d < 10 \<Longrightarrow> d = 0 \<or> d = 1 \<or> d = 2 \<or> d = 3 \<or> d = 4 \<or> d = 5 \<or> d = 6 \<or> d = 7 \<or> d = 8 \<or> d = (9::nat)"
  by arith

lemma digit_val_char: "d < 10 \<Longrightarrow> digit_val (digit_char d) = d"
  using digit_cases [of d] by (auto simp: digit_val_def digit_char_def)

lemma digit_char_not_minus: "d < 10 \<Longrightarrow> digit_char d \<noteq> CHR ''-''"
  using digit_cases [of d] by (auto simp: digit_char_def)

lemma num_val_snoc: "num_val (cs @ [c]) = 10 * num_val cs + digit_val c"
  by (simp add: num_val_def)

lemma num_val_str_nat: "num_val (str_nat n) = n"
proof (induction n rule: str_nat.induct)
  case (1 n)
  show ?case
  proof (cases "n < 10")
    case True
    then show ?thesis by (subst str_nat.simps) (simp add: num_val_def digit_val_char)
  next
    case False
    with 1 have "num_val (str_nat (n div 10)) = n div 10" by simp
    with False show ?thesis
      by (subst str_nat.simps) (simp add: num_val_snoc digit_val_char)
  qed
qed

lemma str_nat_inj: "str_nat m = str_nat n \<Longrightarrow> m = n"
  by (metis num_val_str_nat)

lemma str_nat_nonempty: "str_nat n \<noteq> []"
  by (subst str_nat.simps) simp

lemma hd_str_nat: "hd (str_nat n) \<noteq> CHR ''-''"
proof (induction n rule: str_nat.induct)
  case (1 n)
  show ?case
  proof (cases "n < 10")
    case True
    then show ?thesis by (subst str_nat.simps) (simp add: digit_char_not_minus)
  next
    case False
    with 1 have "hd (str_nat (n div 10)) \<noteq> CHR ''-''" by simp
    with False show ?thesis
      by (subst str_nat.simps) (simp add: str_nat_nonempty)
  qed
qed

lemma str_int_inj: "str_int i = str_int j \<Longrightarrow> i = j"
proof -
  assume eq: "str_int i = str_int j"
  have ne: "\<And>m n. CHR ''-'' # str_nat m \<noteq> str_nat n"
    by (metis hd_str_nat list.sel(1))
  show ?thesis
  proof (cases "i < 0")
    case True
    show ?thesis
    proof (cases "j < 0")
      case True
      with \<open>i < 0\<close> eq have "nat (- i) = nat (- j)" by (simp add: str_int_def str_nat_inj)
      with True \<open>i < 0\<close> show ?thesis by simp
    next
      case False
      with \<open>i < 0\<close> eq ne show ?thesis by (simp add: str_int_def)
    qed
  next
    case False
    show ?thesis
    proof (cases "j < 0")
      case True
      with \<open>\<not> i < 0\<close> eq ne [of "nat (- j)" "nat i"] show ?thesis by (simp add: str_int_def)
    next
      case False
      with \<open>\<not> i < 0\<close> eq have "nat i = nat j" by (simp add: str_int_def str_nat_inj)
      with False \<open>\<not> i < 0\<close> show ?thesis by simp
    qed
  qed
qed

lemma result_key_inj: "result_key a = result_key b \<Longrightarrow> a = b"
  by (simp add: result_key_def str_int_inj)

section \<open>Injection of dependency results\<close>

lemma map_of_dict_set: "map_of (dict_set d k v) = (map_of d)(k \<mapsto> v)"
  by (induction d) (auto simp: fun_eq_iff)

lemma inject_other:
  "\<forall>d \<in> set deps. prev d = None \<or> result_key d \<noteq> k \<Longrightarrow>
   map_of (inject_results deps prev params) k = map_of params k"
  by (induction deps arbitrary: params) (auto simp: map_of_dict_set split: option.splits)

lemma inject_dep:
  "d \<in> set deps \<Longrightarrow> prev d = Some v \<Longrightarrow>
   map_of (inject_results deps prev params) (result_key d) = Some v"
proof (induction deps arbitrary: params)
  case Nil
  then show ?case by simp
next
  case (Cons a deps)
  show ?case
  proof (cases "d \<in> set deps")
    case True
    with Cons show ?thesis by (simp split: option.splits)
  next
    case False
    with Cons.prems have [simp]: "a = d" by simp
    have "\<forall>x \<in> set deps. prev x = None \<or> result_key x \<noteq> result_key d"
      using False result_key_inj by blast
    then show ?thesis using Cons.prems(2)
      by (simp add: inject_other map_of_dict_set)
  qed
qed

section \<open>The loop over the steps\<close>

lemma check_dependencies_loop_iff:
  "check_dependencies_loop deps m \<longleftrightarrow> (\<forall>d \<in> set deps. m d \<noteq> None)"
  by (induction deps) auto

lemma check_dependencies_iff:
  "check_dependencies step m \<longleftrightarrow> (\<forall>d \<in> set (depends_on step). m d \<noteq> None)"
  by (simp add: check_dependencies_def check_dependencies_loop_iff)

lemma execute_steps_Cons_ok:
  assumes "check_dependencies step (step_results st)"
    and "execute_step wc (step\<lparr>step_status := EXECUTING\<rparr>) (step_results st) w = Some (Inr r, w1)"
  shows "execute_steps wc (step # rest) st w =
     (case execute_steps wc rest
             (st\<lparr>step_results := (step_results st)(step_number step \<mapsto> r),
                 completed_steps := completed_steps st + 1, final_result := r\<rparr>) w1 of
        None \<Rightarrow> None
      | Some (rest', st2, w2) \<Rightarrow>
          Some (step\<lparr>step_status := COMPLETED, step_result := r\<rparr> # rest', st2, w2))"
  using assms by (simp add: Let_def)

lemma execute_steps_Cons_fail:
  assumes "check_dependencies step (step_results st)"
    and "execute_step wc (step\<lparr>step_status := EXECUTING\<rparr>) (step_results st) w = Some (Inl e, w1)"
  shows "execute_steps wc (step # rest) st w =
     Some (step\<lparr>step_status := FAILED, step_error := Some e\<rparr> # rest,
           st\<lparr>error := Some (''Step '' @ str_int (step_number step) @ '' failed: '' @ e)\<rparr>, w1)"
  using assms by (simp add: Let_def)

lemma execute_steps_Cons_unmet:
  assumes "\<not> check_dependencies step (step_results st)"
  shows "execute_steps wc (step # rest) st w =
     Some (step # rest,
           st\<lparr>error := Some (''Step '' @ str_int (step_number step) @ '' dependencies not met'')\<rparr>, w)"
  using assms by simp

text \<open>What a run of the loop that ends without an error has done.\<close>

lemma execute_steps_error_kept:
  "execute_steps wc ss st w = Some (ss', st', w') \<Longrightarrow> error st' = None \<Longrightarrow> error st = None"
proof (induction ss arbitrary: st w ss' st' w')
  case Nil
  then show ?case by simp
next
  case (Cons step rest)
  from Cons.prems have dep: "check_dependencies step (step_results st)"
    by (auto split: if_splits)
  from Cons.prems dep obtain r w1 where
    ex: "execute_step wc (step\<lparr>step_status := EXECUTING\<rparr>) (step_results st) w = Some (Inr r, w1)"
    by (auto simp: Let_def split: option.splits sum.splits)
  from Cons.prems(1) obtain rest' where
    "execute_steps wc rest
       (st\<lparr>step_results := (step_results st)(step_number step \<mapsto> r),
           completed_steps := completed_steps st + 1, final_result := r\<rparr>) w1 = Some (rest', st', w')"
    unfolding execute_steps_Cons_ok [OF dep ex] by (auto split: option.splits)
  from Cons.IH [OF this Cons.prems(2)] show ?case by simp
qed

lemma execute_steps_append:
  assumes "execute_steps wc pre st w = Some (pre', st1, w1)" and "error st1 = None"
  shows "execute_steps wc (pre @ rest) st w =
     (case execute_steps wc rest st1 w1 of
        None \<Rightarrow> None
      | Some (rest', st2, w2) \<Rightarrow> Some (pre' @ rest', st2, w2))"
  using assms
proof (induction pre arbitrary: st w pre')
  case Nil
  then show ?case by (auto split: option.splits)
next
  case (Cons step pre)
  from Cons.prems have dep: "check_dependencies step (step_results st)"
    by (auto split: if_splits)
  from Cons.prems dep obtain r wa where
    ex: "execute_step wc (step\<lparr>step_status := EXECUTING\<rparr>) (step_results st) w = Some (Inr r, wa)"
    by (auto simp: Let_def split: option.splits sum.splits)
  define sta where "sta = st\<lparr>step_results := (step_results st)(step_number step \<mapsto> r),
           completed_steps := completed_steps st + 1, final_result := r\<rparr>"
  from Cons.prems(1) obtain pre0 where
    run: "execute_steps wc pre sta wa = Some (pre0, st1, w1)"
    and pre': "pre' = step\<lparr>step_status := COMPLETED, step_result := r\<rparr> # pre0"
    unfolding execute_steps_Cons_ok [OF dep ex] sta_def by (auto split: option.splits)
  have "execute_steps wc ((step # pre) @ rest) st w =
     (case execute_steps wc (pre @ rest) sta wa of
        None \<Rightarrow> None
      | Some (rest', st2, w2) \<Rightarrow>
          Some (step\<lparr>step_status := COMPLETED, step_result := r\<rparr> # rest', st2, w2))"
    using execute_steps_Cons_ok [OF dep ex, of "pre @ rest"] by (simp add: sta_def)
  also have "\<dots> = (case execute_steps wc rest st1 w1 of
        None \<Rightarrow> None
      | Some (rest', st2, w2) \<Rightarrow> Some (pre' @ rest', st2, w2))"
    unfolding Cons.IH [OF run Cons.prems(2)] pre' by (auto split: option.splits)
  finally show ?case .
qed

lemma execute_steps_success:
  assumes "execute_steps wc ss st w = Some (ss', st', w')" and "error st' = None"
  shows "completed_steps st' = completed_steps st + int (length ss)
       \<and> length ss' = length ss
       \<and> (\<forall>s \<in> set ss'. step_status s = COMPLETED)
       \<and> final_result st' = (if ss = [] then final_result st else step_result (last ss'))
       \<and> dom (step_results st') = dom (step_results st) \<union> step_number ` set ss"
  using assms
proof (induction ss arbitrary: st w ss')
  case Nil
  then show ?case by auto
next
  case (Cons step rest)
  from Cons.prems have dep: "check_dependencies step (step_results st)"
    by (auto split: if_splits)
  from Cons.prems dep obtain r wa where
    ex: "execute_step wc (step\<lparr>step_status := EXECUTING\<rparr>) (step_results st) w = Some (Inr r, wa)"
    by (auto simp: Let_def split: option.splits sum.splits)
  define sta where "sta = st\<lparr>step_results := (step_results st)(step_number step \<mapsto> r),
           completed_steps := completed_steps st + 1, final_result := r\<rparr>"
  from Cons.prems(1) obtain rest' where
    run: "execute_steps wc rest sta wa = Some (rest', st', w')"
    and ss': "ss' = step\<lparr>step_status := COMPLETED, step_result := r\<rparr> # rest'"
    unfolding execute_steps_Cons_ok [OF dep ex] sta_def by (auto split: option.splits)
  note IH = Cons.IH [OF run Cons.prems(2)]
  from IH have len: "length rest' = length rest" by simp
  have 1: "completed_steps st' = completed_steps st + int (length (step # rest))"
    using IH by (simp add: sta_def)
  have 2: "length ss' = length (step # rest)" using len ss' by simp
  have 3: "\<forall>s \<in> set ss'. step_status s = COMPLETED" using IH ss' by simp
  have 4: "final_result st' = step_result (last ss')"
  proof (cases "rest = []")
    case True
    with len have "rest' = []" by simp
    with IH True ss' show ?thesis by (simp add: sta_def)
  next
    case False
    with len have "rest' \<noteq> []" by auto
    with IH False ss' show ?thesis by simp
  qed
  have 5: "dom (step_results st') = dom (step_results st) \<union> step_number ` set (step # rest)"
    using IH by (auto simp: sta_def)
  from 1 2 3 4 5 show ?case by simp
qed

lemma execute_steps_bounds:
  "execute_steps wc ss st w = Some (ss', st', w') \<Longrightarrow>
     completed_steps st \<le> completed_steps st'
   \<and> completed_steps st' \<le> completed_steps st + int (length ss)
   \<and> (error st \<noteq> Some [] \<longrightarrow> error st' \<noteq> Some [])"
proof (induction ss arbitrary: st w ss')
  case Nil
  then show ?case by auto
next
  case (Cons step rest)
  show ?case
  proof (cases "check_dependencies step (step_results st)")
    case False
    with Cons.prems show ?thesis by auto
  next
    case dep: True
    from Cons.prems dep obtain x wa where
      ex: "execute_step wc (step\<lparr>step_status := EXECUTING\<rparr>) (step_results st) w = Some (x, wa)"
      by (auto simp: Let_def split: option.splits)
    show ?thesis
    proof (cases x)
      case (Inl e)
      with Cons.prems show ?thesis
        unfolding execute_steps_Cons_fail [OF dep ex [unfolded Inl]] by auto
    next
      case (Inr r)
      define sta where "sta = st\<lparr>step_results := (step_results st)(step_number step \<mapsto> r),
           completed_steps := completed_steps st + 1, final_result := r\<rparr>"
      from Cons.prems obtain rest' where
        run: "execute_steps wc rest sta wa = Some (rest', st', w')"
        unfolding execute_steps_Cons_ok [OF dep ex [unfolded Inr]] sta_def
        by (auto split: option.splits)
      from Cons.IH [OF run] show ?thesis by (simp add: sta_def)
    qed
  qed
qed

section \<open>The polling loop\<close>

lemma poll_loop_timeout:
  "now w - start > real_of_int timeout \<Longrightarrow>
   poll_loop self jid timeout start w = Some (Inr (timeout_result jid timeout), w)"
  by (subst poll_loop.simps) simp

lemma poll_loop_still_running:
  assumes "now w - start \<le> real_of_int timeout"
    and "still_running (fst (client_get w (result_url self jid)))"
  shows "poll_loop self jid timeout start w = poll_loop self jid timeout start (poll_again self jid w)"
proof (cases "client_get w (result_url self jid)")
  case (Pair out w1)
  with assms show ?thesis
    by (subst poll_loop.simps, cases out) (simp_all add: poll_again_def)
qed

lemma poll_loop_completed:
  assumes "now w - start \<le> real_of_int timeout"
    and "client_get w (result_url self jid) = (GetResponse 200 (Json v), w1)"
  shows "poll_loop self jid timeout start w =
     Some (Inr (completed_result jid v (py_int ((now w - start) * 1000))), w1)"
  using assms by (subst poll_loop.simps) simp

lemma poll_loop_unexpected:
  assumes "now w - start \<le> real_of_int timeout"
    and "client_get w (result_url self jid) = (GetResponse code b, w1)"
    and "code \<noteq> 200" and "code \<noteq> 404"
  shows "poll_loop self jid timeout start w = Some (Inr (unexpected_result jid code), w1)"
  using assms by (subst poll_loop.simps) simp


lemma poll_loop_skip:
  assumes "\<forall>i<n. now (after_polls self jid i w) - start \<le> real_of_int timeout
             \<and> still_running (fst (client_get (after_polls self jid i w) (result_url self jid)))"
  shows "poll_loop self jid timeout start w =
         poll_loop self jid timeout start (after_polls self jid n w)"
  using assms
proof (induction n arbitrary: w)
  case 0
  then show ?case by simp
next
  case (Suc n)
  from Suc.prems have first: "now w - start \<le> real_of_int timeout"
      "still_running (fst (client_get w (result_url self jid)))"
    by force+
  have "\<forall>i<n. now (after_polls self jid i (poll_again self jid w)) - start \<le> real_of_int timeout
          \<and> still_running (fst (client_get (after_polls self jid i (poll_again self jid w))
                                (result_url self jid)))"
  proof (intro allI impI)
    fix i assume "i < n"
    then have "Suc i < Suc n" by simp
    with Suc.prems show "now (after_polls self jid i (poll_again self jid w)) - start \<le> real_of_int timeout
          \<and> still_running (fst (client_get (after_polls self jid i (poll_again self jid w))
                                (result_url self jid)))"
      by (metis after_polls.simps(2))
  qed
  from Suc.IH [OF this] poll_loop_still_running [OF first] show ?case by simp
qed

lemma poll_again_fields:
  "polls (poll_again self jid w) = polls w + 1"
  "posts (poll_again self jid w) = posts w"
  "get_reply (poll_again self jid w) = get_reply w"
  "post_reply (poll_again self jid w) = post_reply w"
  "now (poll_again self jid w) = now w + fst (get_reply w (polls w) (result_url self jid)) + 1"
  by (simp_all add: poll_again_def sleep_def client_get_def split: prod.splits)

lemma after_polls_fields:
  "polls (after_polls self jid n w) = polls w + n"
  "posts (after_polls self jid n w) = posts w"
  "get_reply (after_polls self jid n w) = get_reply w"
  "post_reply (after_polls self jid n w) = post_reply w"
  by (induction n arbitrary: w) (simp_all add: poll_again_fields)

lemma after_polls_Suc:
  "after_polls self jid (Suc n) w = poll_again self jid (after_polls self jid n w)"
  by (induction n arbitrary: w) simp_all

lemma now_after_polls:
  assumes "\<forall>i. 0 \<le> fst (get_reply w i (result_url self jid))"
  shows "now w + real n \<le> now (after_polls self jid n w)"
proof (induction n)
  case 0
  then show ?case by simp
next
  case (Suc n)
  have "now (after_polls self jid (Suc n) w) =
        now (after_polls self jid n w)
          + fst (get_reply w (polls w + n) (result_url self jid)) + 1"
    by (simp only: after_polls_Suc poll_again_fields after_polls_fields)
  with Suc assms show ?case
    by (smt (verit) of_nat_Suc)
qed

lemma fst_client_get: "fst (client_get w url) = snd (get_reply w (polls w) url)"
  by (simp add: client_get_def split: prod.splits)

lemma poll_loop_gives_up:
  assumes lat: "\<forall>i. 0 \<le> fst (get_reply w i (result_url self jid))"
    and nt: "\<forall>i. still_running (snd (get_reply w i (result_url self jid)))"
  shows "\<exists>n. poll_loop self jid timeout start w =
              Some (Inr (timeout_result jid timeout), after_polls self jid n w)"
proof -
  define late where "late n \<longleftrightarrow> now (after_polls self jid n w) - start > real_of_int timeout" for n
  obtain m :: nat where "real m > real_of_int timeout + start - now w"
    using reals_Archimedean2 by blast
  with now_after_polls [OF lat, of m] have "late m" by (simp add: late_def)
  define n where "n = (LEAST n. late n)"
  from \<open>late m\<close> have n: "late n" unfolding n_def by (rule LeastI)
  have before: "\<not> late i" if "i < n" for i
    using that not_less_Least unfolding n_def by blast
  have "\<forall>i<n. now (after_polls self jid i w) - start \<le> real_of_int timeout
             \<and> still_running (fst (client_get (after_polls self jid i w) (result_url self jid)))"
  proof (intro allI impI conjI)
    fix i assume "i < n"
    from before [OF this] show "now (after_polls self jid i w) - start \<le> real_of_int timeout"
      by (simp add: late_def)
    from nt show "still_running (fst (client_get (after_polls self jid i w) (result_url self jid)))"
      by (simp add: fst_client_get after_polls_fields)
  qed
  from poll_loop_skip [OF this] poll_loop_timeout [of timeout "after_polls self jid n w" start] n
  show ?thesis by (auto simp: late_def)
qed

lemma execute_step_status:
  "execute_step wc (step\<lparr>step_status := s\<rparr>) prev w = execute_step wc step prev w"
  by (simp add: execute_step_def prepared_input_def)

lemma execute_steps_frame:
  "execute_steps wc ss st w = Some (ss', st', w') \<Longrightarrow>
     map input_params ss' = map input_params ss"
proof (induction ss arbitrary: st w ss')
  case Nil
  then show ?case by simp
next
  case (Cons step rest)
  then show ?case
    by (fastforce simp: Let_def split: if_splits option.splits sum.splits)
qed

text \<open>The definitions that evaluating the code on a concrete input unfolds.\<close>

lemmas eval_defs = new_plan_def new_step_def step_a_def step_b_def step_c_def step_d_def step_e_def
  step_f_def
  results_1_def initial_state_def check_dependencies_def execute_step_def prepared_input_def
  py_int_def Let_def dict_get_def result_key_def str_int_def str_nat.simps digit_char_def
  example_client_def

section \<open>Evaluating the client on a concrete backend\<close>

lemmas client_defs = run_script_def client_post_def client_get_def failure_message_def run_url_def
  result_url_def wait_for_job_def sleep_def strip_quotes_def down_world_def ready_world_def

lemma never_world_after_one:
  "poll_again example_client ''job-1'' never_world = never_world\<lparr>now := 3 / 2, polls := 1\<rparr>"
  by (simp add: poll_again_def client_get_def sleep_def never_world_def)

lemma client_get_reply:
  "get_reply w (polls w) url = (lat, out) \<Longrightarrow>
   client_get w url = (out, w\<lparr>now := now w + lat, polls := polls w + 1\<rparr>)"
  by (simp add: client_get_def)


section \<open>The claims\<close>

text \<open>
  C1, as the code has it. The dictionary that \<open>_execute_step\<close> hands to \<open>run_script\<close>, and
  returns for a step without a script, is \<open>prepared_input\<close>: a copy of the step's
  \<open>input_params\<close> in which, for every id in \<open>depends_on\<close> that has a result, the key
  \<open>step_<id>_result\<close> holds that result, and in which every key that is not such an injected
  key has the caller-supplied value. A caller-supplied key that is such a
  \<open>step_<id>_result\<close> is replaced by the injection. The step's own \<open>input_params\<close> is never
  changed by a run of the scheduler.
\<close>

theorem prepared_input_lookup:
  "(\<forall>d v. d \<in> set (depends_on step) \<and> prev d = Some v \<longrightarrow>
       dict_get (prepared_input step prev) (result_key d) = Some v)
 \<and> (\<forall>k. (\<forall>d \<in> set (depends_on step). prev d = None \<or> result_key d \<noteq> k) \<longrightarrow>
       dict_get (prepared_input step prev) k = dict_get (input_params step) k)
 \<and> (\<forall>wc ss st w ss' st' w'. execute_steps wc ss st w = Some (ss', st', w') \<longrightarrow>
       map input_params ss' = map input_params ss)
 \<and> (\<forall>wc w path. script_path step = Some path \<and> path \<noteq> [] \<longrightarrow>
       execute_step wc step prev w =
         (case run_script wc path (prepared_input step prev) True 300 w of
            None \<Rightarrow> None
          | Some (Inl e, w1) \<Rightarrow> Some (Inl e, w1)
          | Some (Inr r, w1) \<Rightarrow>
              if job_status r = ''completed'' then Some (Inr (job_result r), w1)
              else Some (Inl (failure_message r), w1)))
 \<and> (\<forall>wc w. script_path step = None \<or> script_path step = Some [] \<longrightarrow>
       execute_step wc step prev w = Some (Inr (VDict (prepared_input step prev)), w))
 \<and> (\<forall>wc rest st w. check_dependencies step (step_results st) \<longrightarrow>
       execute_steps wc (step # rest) st w =
         (case execute_step wc step (step_results st) w of
            None \<Rightarrow> None
          | Some (Inr r, w1) \<Rightarrow>
              (case execute_steps wc rest
                      (st\<lparr>step_results := (step_results st)(step_number step \<mapsto> r),
                          completed_steps := completed_steps st + 1, final_result := r\<rparr>) w1 of
                 None \<Rightarrow> None
               | Some (rest', st2, w2) \<Rightarrow>
                   Some (step\<lparr>step_status := COMPLETED, step_result := r\<rparr> # rest', st2, w2))
          | Some (Inl e, w1) \<Rightarrow>
              Some (step\<lparr>step_status := FAILED, step_error := Some e\<rparr> # rest,
                    st\<lparr>error := Some (''Step '' @ str_int (step_number step) @ '' failed: '' @ e)\<rparr>,
                    w1)))"
proof -
  have 1: "\<forall>d v. d \<in> set (depends_on step) \<and> prev d = Some v \<longrightarrow>
       dict_get (prepared_input step prev) (result_key d) = Some v"
    by (simp add: dict_get_def prepared_input_def inject_dep)
  have 2: "\<forall>k. (\<forall>d \<in> set (depends_on step). prev d = None \<or> result_key d \<noteq> k) \<longrightarrow>
       dict_get (prepared_input step prev) k = dict_get (input_params step) k"
    by (simp add: dict_get_def prepared_input_def inject_other)
  have 3: "\<forall>wc ss st w ss' st' w'. execute_steps wc ss st w = Some (ss', st', w') \<longrightarrow>
       map input_params ss' = map input_params ss"
    by (simp add: execute_steps_frame)
  have 4: "\<forall>wc w path. script_path step = Some path \<and> path \<noteq> [] \<longrightarrow>
       execute_step wc step prev w =
         (case run_script wc path (prepared_input step prev) True 300 w of
            None \<Rightarrow> None
          | Some (Inl e, w1) \<Rightarrow> Some (Inl e, w1)
          | Some (Inr r, w1) \<Rightarrow>
              if job_status r = ''completed'' then Some (Inr (job_result r), w1)
              else Some (Inl (failure_message r), w1))"
    by (simp add: execute_step_def)
  have 5: "\<forall>wc w. script_path step = None \<or> script_path step = Some [] \<longrightarrow>
       execute_step wc step prev w = Some (Inr (VDict (prepared_input step prev)), w)"
    by (auto simp: execute_step_def)
  have 6: "\<forall>wc rest st w. check_dependencies step (step_results st) \<longrightarrow>
       execute_steps wc (step # rest) st w =
         (case execute_step wc step (step_results st) w of
            None \<Rightarrow> None
          | Some (Inr r, w1) \<Rightarrow>
              (case execute_steps wc rest
                      (st\<lparr>step_results := (step_results st)(step_number step \<mapsto> r),
                          completed_steps := completed_steps st + 1, final_result := r\<rparr>) w1 of
                 None \<Rightarrow> None
               | Some (rest', st2, w2) \<Rightarrow>
                   Some (step\<lparr>step_status := COMPLETED, step_result := r\<rparr> # rest', st2, w2))
          | Some (Inl e, w1) \<Rightarrow>
              Some (step\<lparr>step_status := FAILED, step_error := Some e\<rparr> # rest,
                    st\<lparr>error := Some (''Step '' @ str_int (step_number step) @ '' failed: '' @ e)\<rparr>,
                    w1))"
    by (simp add: execute_step_status Let_def split: option.splits sum.splits)
  from 1 2 3 4 5 6 show ?thesis by blast
qed

theorem prepared_input_lookup_witness:
  "dict_get (prepared_input step_c results_1) ''step_1_result'' = Some (VDict [(''a'', VInt 1)])
 \<and> dict_get (prepared_input step_c results_1) ''c'' = Some (VInt 3)
 \<and> map_option (\<lambda>(ss', st', w'). map input_params ss')
       (execute_steps example_client [step_a, step_b] initial_state ready_world) =
     Some (map input_params [step_a, step_b])
 \<and> execute_step example_client step_c results_1 strict_world =
     Some (Inr (VStr ''done''), strict_world\<lparr>now := 3 / 4, posts := 1, polls := 1\<rparr>)
 \<and> execute_step example_client step_a results_1 strict_world =
     Some (Inr (VDict [(''a'', VInt 1)]), strict_world)
 \<and> execute_steps example_client [step_c] (initial_state\<lparr>step_results := results_1\<rparr>) strict_world =
     Some ([step_c\<lparr>step_status := COMPLETED, step_result := VStr ''done''\<rparr>],
           initial_state\<lparr>step_results := results_1(3 \<mapsto> VStr ''done''), completed_steps := 1,
                          final_result := VStr ''done''\<rparr>,
           strict_world\<lparr>now := 3 / 4, posts := 1, polls := 1\<rparr>)"
proof -
  have dep: "1 \<in> set (depends_on step_c) \<and> results_1 1 = Some (VDict [(''a'', VInt 1)])"
    by (simp add: step_c_def new_step_def results_1_def)
  have key: "result_key 1 = ''step_1_result''"
    by (simp add: result_key_def str_int_def str_nat.simps digit_char_def)
  have other: "\<forall>d \<in> set (depends_on step_c). results_1 d = None \<or> result_key d \<noteq> ''c''"
    by (simp add: step_c_def new_step_def key)
  have old: "dict_get (input_params step_c) ''c'' = Some (VInt 3)"
    by (simp add: step_c_def new_step_def dict_get_def)
  obtain ss' st' w' where
    run: "execute_steps example_client [step_a, step_b] initial_state ready_world = Some (ss', st', w')"
    by (simp add: eval_defs)
  note claim = prepared_input_lookup [of step_c results_1]
  from claim dep key
  have 1: "dict_get (prepared_input step_c results_1) ''step_1_result'' = Some (VDict [(''a'', VInt 1)])"
    by metis
  from claim other old
  have 2: "dict_get (prepared_input step_c results_1) ''c'' = Some (VInt 3)"
    by metis
  from claim run have "map input_params ss' = map input_params [step_a, step_b]"
    by blast
  with run have 3: "map_option (\<lambda>(ss', st', w'). map input_params ss')
       (execute_steps example_client [step_a, step_b] initial_state ready_world) =
     Some (map input_params [step_a, step_b])"
    by (simp del: execute_steps.simps)
  have path: "script_path step_c = Some ''f/job'' \<and> ''f/job'' \<noteq> []"
    by (simp add: step_c_def new_step_def)
  have inp: "prepared_input step_c results_1 =
      [(''c'', VInt 3), (''step_1_result'', VDict [(''a'', VInt 1)])]"
    by (simp add: eval_defs)
  have sent: "run_script example_client ''f/job''
        [(''c'', VInt 3), (''step_1_result'', VDict [(''a'', VInt 1)])] True 300 strict_world =
      Some (Inr (completed_result ''job-1'' (VStr ''done'') 0),
            strict_world\<lparr>now := 3 / 4, posts := 1, polls := 1\<rparr>)"
    apply (simp add: run_script_def client_post_def wait_for_job_def strip_quotes_def
        strict_world_def)
    apply (subst poll_loop.simps)
    apply (simp add: client_get_def py_int_def)
    done
  from claim path
  have "execute_step example_client step_c results_1 strict_world =
         (case run_script example_client ''f/job'' (prepared_input step_c results_1) True 300
                 strict_world of
            None \<Rightarrow> None
          | Some (Inl e, w1) \<Rightarrow> Some (Inl e, w1)
          | Some (Inr r, w1) \<Rightarrow>
              if job_status r = ''completed'' then Some (Inr (job_result r), w1)
              else Some (Inl (failure_message r), w1))"
    by blast
  then have 4: "execute_step example_client step_c results_1 strict_world =
     Some (Inr (VStr ''done''), strict_world\<lparr>now := 3 / 4, posts := 1, polls := 1\<rparr>)"
    unfolding inp sent by (simp add: completed_result_def)
  have nopath: "script_path step_a = None \<or> script_path step_a = Some []"
    by (simp add: step_a_def new_step_def)
  have inp_a: "prepared_input step_a results_1 = [(''a'', VInt 1)]"
    by (simp add: eval_defs)
  from prepared_input_lookup [of step_a results_1] nopath
  have "execute_step example_client step_a results_1 strict_world =
      Some (Inr (VDict (prepared_input step_a results_1)), strict_world)"
    by blast
  then have 5: "execute_step example_client step_a results_1 strict_world =
     Some (Inr (VDict [(''a'', VInt 1)]), strict_world)"
    unfolding inp_a .
  have deps: "check_dependencies step_c (step_results (initial_state\<lparr>step_results := results_1\<rparr>))"
    by (simp add: check_dependencies_def step_c_def new_step_def results_1_def)
  from claim deps
  have "execute_steps example_client (step_c # []) (initial_state\<lparr>step_results := results_1\<rparr>)
          strict_world =
         (case execute_step example_client step_c
                 (step_results (initial_state\<lparr>step_results := results_1\<rparr>)) strict_world of
            None \<Rightarrow> None
          | Some (Inr r, w1) \<Rightarrow>
              (case execute_steps example_client []
                      ((initial_state\<lparr>step_results := results_1\<rparr>)
                         \<lparr>step_results :=
                            (step_results (initial_state\<lparr>step_results := results_1\<rparr>))
                              (step_number step_c \<mapsto> r),
                          completed_steps :=
                            completed_steps (initial_state\<lparr>step_results := results_1\<rparr>) + 1,
                          final_result := r\<rparr>) w1 of
                 None \<Rightarrow> None
               | Some (rest', st2, w2) \<Rightarrow>
                   Some (step_c\<lparr>step_status := COMPLETED, step_result := r\<rparr> # rest', st2, w2))
          | Some (Inl e, w1) \<Rightarrow>
              Some (step_c\<lparr>step_status := FAILED, step_error := Some e\<rparr> # [],
                    (initial_state\<lparr>step_results := results_1\<rparr>)
                      \<lparr>error := Some (''Step '' @ str_int (step_number step_c) @ '' failed: '' @ e)\<rparr>,
                    w1))"
    by blast
  then have 6: "execute_steps example_client [step_c] (initial_state\<lparr>step_results := results_1\<rparr>)
       strict_world =
     Some ([step_c\<lparr>step_status := COMPLETED, step_result := VStr ''done''\<rparr>],
           initial_state\<lparr>step_results := results_1(3 \<mapsto> VStr ''done''), completed_steps := 1,
                          final_result := VStr ''done''\<rparr>,
           strict_world\<lparr>now := 3 / 4, posts := 1, polls := 1\<rparr>)"
    using 4 by (simp add: initial_state_def step_c_def new_step_def del: execute_steps.simps(2))
  from 1 2 3 4 5 6 show ?thesis by blast
qed

text \<open>
  C1 as stated fails. Step 2 is given the key \<open>step_1_result\<close> by its caller and depends on
  step 1, and the input that is dispatched holds the result of step 1 under that key, not
  the caller's value. Step 6 is given the same key, depends on step 1 and runs a script:
  the backend that accepts a job only with the caller's value under that key refuses it.
\<close>

theorem injection_overwrites_caller_key:
  "dict_get (input_params step_b) ''step_1_result'' = Some (VStr ''mine'')
 \<and> 1 \<in> set (depends_on step_b)
 \<and> results_1 1 = Some (VDict [(''a'', VInt 1)])
 \<and> dict_get (prepared_input step_b results_1) ''step_1_result'' = Some (VDict [(''a'', VInt 1)])
 \<and> execute_plan example_client (new_plan [step_a, step_b]) ready_world =
    Some (\<lparr>resp_task_id = ''task-1'', resp_status = COMPLETED,
           resp_result = VDict [(''step_1_result'', VDict [(''a'', VInt 1)]), (''b'', VInt 2)],
           resp_error = None, execution_time_ms = 0, steps_completed = 2, total_steps = 2\<rparr>,
          (new_plan
             [step_a\<lparr>step_status := COMPLETED, step_result := VDict [(''a'', VInt 1)]\<rparr>,
              step_b\<lparr>step_status := COMPLETED,
                     step_result :=
                       VDict [(''step_1_result'', VDict [(''a'', VInt 1)]), (''b'', VInt 2)]\<rparr>])
            \<lparr>plan_status := EXECUTING\<rparr>,
          ready_world)
 \<and> dict_get (input_params step_f) ''step_1_result'' = Some (VStr ''mine'')
 \<and> execute_step example_client step_f results_1 picky_world =
    Some (Inl ''caller value missing'', picky_world\<lparr>now := 1 / 2, posts := 1\<rparr>)"
proof -
  have 1: "dict_get (input_params step_b) ''step_1_result'' = Some (VStr ''mine'')
     \<and> 1 \<in> set (depends_on step_b)
     \<and> results_1 1 = Some (VDict [(''a'', VInt 1)])
     \<and> dict_get (prepared_input step_b results_1) ''step_1_result'' = Some (VDict [(''a'', VInt 1)])"
    by (simp add: eval_defs)
  have 2: "execute_plan example_client (new_plan [step_a, step_b]) ready_world =
    Some (\<lparr>resp_task_id = ''task-1'', resp_status = COMPLETED,
           resp_result = VDict [(''step_1_result'', VDict [(''a'', VInt 1)]), (''b'', VInt 2)],
           resp_error = None, execution_time_ms = 0, steps_completed = 2, total_steps = 2\<rparr>,
          (new_plan
             [step_a\<lparr>step_status := COMPLETED, step_result := VDict [(''a'', VInt 1)]\<rparr>,
              step_b\<lparr>step_status := COMPLETED,
                     step_result :=
                       VDict [(''step_1_result'', VDict [(''a'', VInt 1)]), (''b'', VInt 2)]\<rparr>])
            \<lparr>plan_status := EXECUTING\<rparr>,
          ready_world)"
    by (simp add: eval_defs execute_plan_def)
  have 3: "dict_get (input_params step_f) ''step_1_result'' = Some (VStr ''mine'')"
    by (simp add: eval_defs)
  have 4: "execute_step example_client step_f results_1 picky_world =
    Some (Inl ''caller value missing'', picky_world\<lparr>now := 1 / 2, posts := 1\<rparr>)"
    by (simp add: eval_defs run_script_def client_post_def failure_message_def picky_world_def)
  from 1 2 3 4 show ?thesis by blast
qed

text \<open>
  C2, evaluated on a plan with one passthrough step: the step succeeds, the response says
  completed, and the plan that \<open>_execute_plan\<close> leaves behind still has the status executing.
\<close>

theorem plan_status_left_executing:
  "execute_plan example_client (new_plan [step_a]) ready_world =
     Some (\<lparr>resp_task_id = ''task-1'', resp_status = COMPLETED,
            resp_result = VDict [(''a'', VInt 1)],
            resp_error = None, execution_time_ms = 0, steps_completed = 1, total_steps = 1\<rparr>,
           (new_plan [step_a\<lparr>step_status := COMPLETED, step_result := VDict [(''a'', VInt 1)]\<rparr>])
             \<lparr>plan_status := EXECUTING\<rparr>,
           ready_world)"
  by (simp add: execute_plan_def new_plan_def step_a_def new_step_def initial_state_def
      check_dependencies_def execute_step_def prepared_input_def py_int_def Let_def)

text \<open>
  C3: when the steps before step \<open>k\<close> have all succeeded and the dispatch of step \<open>k\<close> raises,
  \<open>_execute_plan\<close> returns a response with status failed, \<open>k - 1\<close> steps completed, the
  error \<open>Step <N> failed: <cause>\<close> and the result of the last step that succeeded (none
  when \<open>k\<close> is the first step). Step \<open>k\<close> is marked failed with the cause, the steps after it
  are left as they were, and the world is the one the failed dispatch left: nothing is
  attempted after it.
\<close>

theorem step_failure_halts:
  assumes plan: "steps plan = pre @ step # post"
    and pre: "execute_steps wc pre initial_state w = Some (pre', st1, w1)" "error st1 = None"
    and dep: "check_dependencies step (step_results st1)"
    and fail: "execute_step wc step (step_results st1) w1 = Some (Inl cause, w2)"
  shows "execute_plan wc plan w =
     Some (\<lparr>resp_task_id = task_id plan, resp_status = FAILED,
            resp_result = (if pre = [] then VNone else step_result (last pre')),
            resp_error = Some (''Step '' @ str_int (step_number step) @ '' failed: '' @ cause),
            execution_time_ms = py_int ((now w2 - now w) * 1000),
            steps_completed = int (length pre),
            total_steps = int (length (steps plan))\<rparr>,
           plan\<lparr>plan_status := EXECUTING,
                steps := pre' @ step\<lparr>step_status := FAILED, step_error := Some cause\<rparr> # post\<rparr>,
           w2)
   \<and> length pre' = length pre
   \<and> list_all (\<lambda>s. step_status s = COMPLETED) pre'"
proof -
  from fail have ex: "execute_step wc (step\<lparr>step_status := EXECUTING\<rparr>) (step_results st1) w1
      = Some (Inl cause, w2)"
    by (simp add: execute_step_status)
  have run: "execute_steps wc (steps plan) initial_state w =
      Some (pre' @ step\<lparr>step_status := FAILED, step_error := Some cause\<rparr> # post,
            st1\<lparr>error := Some (''Step '' @ str_int (step_number step) @ '' failed: '' @ cause)\<rparr>,
            w2)"
    unfolding plan execute_steps_append [OF pre] execute_steps_Cons_fail [OF dep ex] by simp
  note ok = execute_steps_success [OF pre]
  from ok have cnt: "completed_steps st1 = int (length pre)"
    and fin: "final_result st1 = (if pre = [] then VNone else step_result (last pre'))"
    and len: "length pre' = length pre"
    and allc: "list_all (\<lambda>s. step_status s = COMPLETED) pre'"
    by (simp_all add: initial_state_def list_all_iff)
  from run cnt fin len allc show ?thesis
    by (simp add: execute_plan_def)
qed

theorem step_failure_halts_witness:
  "execute_plan example_client (new_plan [step_a, step_c, step_e]) down_world =
     Some (\<lparr>resp_task_id = ''task-1'', resp_status = FAILED,
            resp_result = VDict [(''a'', VInt 1)],
            resp_error = Some ''Step 3 failed: connection refused'',
            execution_time_ms = 500, steps_completed = 1, total_steps = 3\<rparr>,
           (new_plan [step_a\<lparr>step_status := COMPLETED, step_result := VDict [(''a'', VInt 1)]\<rparr>,
                      step_c\<lparr>step_status := FAILED, step_error := Some ''connection refused''\<rparr>,
                      step_e])\<lparr>plan_status := EXECUTING\<rparr>,
           down_world\<lparr>now := 1 / 2, posts := 1\<rparr>)"
proof -
  define st1 where "st1 = initial_state\<lparr>step_results := results_1, completed_steps := 1,
      final_result := VDict [(''a'', VInt 1)]\<rparr>"
  have plan: "steps (new_plan [step_a, step_c, step_e]) = [step_a] @ step_c # [step_e]"
    by (simp add: new_plan_def)
  have pre: "execute_steps example_client [step_a] initial_state down_world =
      Some ([step_a\<lparr>step_status := COMPLETED, step_result := VDict [(''a'', VInt 1)]\<rparr>], st1, down_world)"
    by (simp add: eval_defs st1_def)
  have ok: "error st1 = None" by (simp add: st1_def initial_state_def)
  have dep: "check_dependencies step_c (step_results st1)"
    by (simp add: st1_def check_dependencies_def step_c_def new_step_def results_1_def)
  have fail: "execute_step example_client step_c (step_results st1) down_world =
      Some (Inl ''connection refused'', down_world\<lparr>now := 1 / 2, posts := 1\<rparr>)"
    by (simp add: eval_defs client_defs st1_def)
  have num: "str_int (step_number step_c) = ''3''"
    by (simp add: eval_defs)
  have ms: "now down_world = 0"
    by (simp add: down_world_def)
  from step_failure_halts [OF plan pre ok dep fail, THEN conjunct1]
  show ?thesis
    by (simp add: num ms py_int_def new_plan_def del: execute_steps.simps)
qed

text \<open>
  C4: every response of \<open>_execute_plan\<close> has \<open>steps_completed \<le> total_steps\<close>, has the
  number of steps of the plan as \<open>total_steps\<close>, and has the status completed if and only if
  its error is none and \<open>steps_completed = total_steps\<close>.
\<close>

theorem task_response_invariant:
  assumes "execute_plan wc plan w = Some (resp, plan', w')"
  shows "steps_completed resp \<le> total_steps resp
       \<and> total_steps resp = int (length (steps plan))
       \<and> (resp_status resp = COMPLETED \<longleftrightarrow>
            resp_error resp = None \<and> steps_completed resp = total_steps resp)"
proof -
  from assms obtain ss' st where
    run: "execute_steps wc (steps plan) initial_state w = Some (ss', st, w')"
    and resp: "resp = \<lparr>resp_task_id = task_id plan,
                    resp_status = (if error st = None \<or> error st = Some [] then COMPLETED else FAILED),
                    resp_result = final_result st,
                    resp_error = error st,
                    execution_time_ms = py_int ((now w' - now w) * 1000),
                    steps_completed = completed_steps st,
                    total_steps = int (length (steps plan))\<rparr>"
    by (auto simp: execute_plan_def Let_def split: option.splits)
  from execute_steps_bounds [OF run] have
    le: "completed_steps st \<le> int (length (steps plan))" and ne: "error st \<noteq> Some []"
    by (simp_all add: initial_state_def)
  have full: "completed_steps st = int (length (steps plan))" if "error st = None"
    using execute_steps_success [OF run that] by (simp add: initial_state_def)
  from le ne full show ?thesis by (auto simp: resp)
qed

theorem task_response_invariant_witness:
  "execute_plan example_client (new_plan [step_a, step_d]) ready_world =
     Some (\<lparr>resp_task_id = ''task-1'', resp_status = FAILED,
            resp_result = VDict [(''a'', VInt 1)],
            resp_error = Some ''Step 4 dependencies not met'', execution_time_ms = 0,
            steps_completed = 1, total_steps = 2\<rparr>,
           (new_plan [step_a\<lparr>step_status := COMPLETED, step_result := VDict [(''a'', VInt 1)]\<rparr>,
                      step_d])\<lparr>plan_status := EXECUTING\<rparr>,
           ready_world)
 \<and> (1::int) \<le> 2
 \<and> (2::int) = int (length (steps (new_plan [step_a, step_d])))
 \<and> (FAILED = COMPLETED \<longleftrightarrow>
      Some ''Step 4 dependencies not met'' = (None :: string option) \<and> (1::int) = 2)"
proof -
  have run: "execute_plan example_client (new_plan [step_a, step_d]) ready_world =
     Some (\<lparr>resp_task_id = ''task-1'', resp_status = FAILED,
            resp_result = VDict [(''a'', VInt 1)],
            resp_error = Some ''Step 4 dependencies not met'', execution_time_ms = 0,
            steps_completed = 1, total_steps = 2\<rparr>,
           (new_plan [step_a\<lparr>step_status := COMPLETED, step_result := VDict [(''a'', VInt 1)]\<rparr>,
                      step_d])\<lparr>plan_status := EXECUTING\<rparr>,
           ready_world)"
    by (simp add: eval_defs execute_plan_def)
  from task_response_invariant [OF run] run show ?thesis by simp
qed

text \<open>
  C5: when the steps before step \<open>k\<close> have all succeeded and step \<open>k\<close> depends on an id that
  is not the number of any of them, \<open>_execute_plan\<close> returns a response with status failed,
  \<open>k - 1\<close> steps completed and the error \<open>Step <N> dependencies not met\<close>. Step \<open>k\<close> and
  the steps after it are left as they were, and the world is the one the earlier steps
  left: step \<open>k\<close> is not dispatched and nothing is attempted after it.
\<close>

theorem unmet_dependency_aborts:
  assumes plan: "steps plan = pre @ step # post"
    and pre: "execute_steps wc pre initial_state w = Some (pre', st1, w1)" "error st1 = None"
    and missing: "d \<in> set (depends_on step)" "d \<notin> step_number ` set pre"
  shows "execute_plan wc plan w =
     Some (\<lparr>resp_task_id = task_id plan, resp_status = FAILED,
            resp_result = (if pre = [] then VNone else step_result (last pre')),
            resp_error = Some (''Step '' @ str_int (step_number step) @ '' dependencies not met''),
            execution_time_ms = py_int ((now w1 - now w) * 1000),
            steps_completed = int (length pre),
            total_steps = int (length (steps plan))\<rparr>,
           plan\<lparr>plan_status := EXECUTING, steps := pre' @ step # post\<rparr>,
           w1)
   \<and> length pre' = length pre
   \<and> list_all (\<lambda>s. step_status s = COMPLETED) pre'"
proof -
  note ok = execute_steps_success [OF pre]
  from ok have cnt: "completed_steps st1 = int (length pre)"
    and fin: "final_result st1 = (if pre = [] then VNone else step_result (last pre'))"
    and len: "length pre' = length pre"
    and allc: "list_all (\<lambda>s. step_status s = COMPLETED) pre'"
    and dom: "dom (step_results st1) = step_number ` set pre"
    by (simp_all add: initial_state_def list_all_iff)
  from missing dom have "step_results st1 d = None" by blast
  with missing(1) have dep: "\<not> check_dependencies step (step_results st1)"
    by (auto simp: check_dependencies_iff)
  have run: "execute_steps wc (steps plan) initial_state w =
      Some (pre' @ step # post,
            st1\<lparr>error := Some (''Step '' @ str_int (step_number step) @ '' dependencies not met'')\<rparr>,
            w1)"
    unfolding plan execute_steps_append [OF pre] execute_steps_Cons_unmet [OF dep] by simp
  from run cnt fin len allc show ?thesis
    by (simp add: execute_plan_def)
qed

theorem unmet_dependency_aborts_witness:
  "execute_plan example_client (new_plan [step_a, step_d, step_e]) ready_world =
     Some (\<lparr>resp_task_id = ''task-1'', resp_status = FAILED,
            resp_result = VDict [(''a'', VInt 1)],
            resp_error = Some ''Step 4 dependencies not met'',
            execution_time_ms = 0, steps_completed = 1, total_steps = 3\<rparr>,
           (new_plan [step_a\<lparr>step_status := COMPLETED, step_result := VDict [(''a'', VInt 1)]\<rparr>,
                      step_d, step_e])\<lparr>plan_status := EXECUTING\<rparr>,
           ready_world)"
proof -
  define st1 where "st1 = initial_state\<lparr>step_results := results_1, completed_steps := 1,
      final_result := VDict [(''a'', VInt 1)]\<rparr>"
  have plan: "steps (new_plan [step_a, step_d, step_e]) = [step_a] @ step_d # [step_e]"
    by (simp add: new_plan_def)
  have pre: "execute_steps example_client [step_a] initial_state ready_world =
      Some ([step_a\<lparr>step_status := COMPLETED, step_result := VDict [(''a'', VInt 1)]\<rparr>], st1, ready_world)"
    by (simp add: eval_defs st1_def)
  have ok: "error st1 = None" by (simp add: st1_def initial_state_def)
  have d1: "9 \<in> set (depends_on step_d)" by (simp add: step_d_def new_step_def)
  have d2: "9 \<notin> step_number ` set [step_a]" by (simp add: step_a_def new_step_def)
  have num: "str_int (step_number step_d) = ''4''"
    by (simp add: eval_defs)
  have ms: "py_int 0 = 0"
    by (simp add: py_int_def)
  from unmet_dependency_aborts [OF plan pre ok d1 d2, THEN conjunct1]
  show ?thesis
    by (simp add: num ms new_plan_def del: execute_steps.simps)
qed

text \<open>
  C6, as the code has it. The elapsed time is read at the top of each round of the loop.
  When the first \<open>n\<close> rounds were within the budget and got a 404 or a transport error, and
  the elapsed time read at round \<open>n\<close> exceeds \<open>timeout\<close>, \<open>_wait_for_job\<close> returns the status
  timeout with the error \<open>Job timed out after <timeout>s\<close>, after exactly \<open>n\<close> queries and
  without another one. In particular, on a backend that answers every query with a 404 or
  a transport error, each after a delay that is not negative, \<open>_wait_for_job\<close> returns the
  status timeout. When the elapsed time read at round \<open>n\<close> is within the budget, the query
  of that round is sent and a terminal answer to it is accepted however long it takes, so
  also when it arrives after the budget has run out: a 200 with a JSON payload gives the
  status completed, a status code other than 200 and 404 the status failed.
\<close>

theorem timeout_at_check:
  "((\<forall>i<n. now (after_polls self jid i w) - now w \<le> real_of_int timeout
            \<and> still_running (fst (client_get (after_polls self jid i w) (result_url self jid))))
     \<and> now (after_polls self jid n w) - now w > real_of_int timeout
    \<longrightarrow> wait_for_job self jid timeout w =
          Some (Inr \<lparr>job_id = jid, job_status = ''timeout'', job_result = VNone,
                     job_error = Some (''Job timed out after '' @ str_int timeout @ ''s''),
                     duration_ms = 0\<rparr>,
                after_polls self jid n w)
        \<and> polls (after_polls self jid n w) = polls w + n)
 \<and> ((\<forall>i. 0 \<le> fst (get_reply w i (result_url self jid))
          \<and> still_running (snd (get_reply w i (result_url self jid))))
    \<longrightarrow> (\<exists>n. wait_for_job self jid timeout w =
               Some (Inr \<lparr>job_id = jid, job_status = ''timeout'', job_result = VNone,
                          job_error = Some (''Job timed out after '' @ str_int timeout @ ''s''),
                          duration_ms = 0\<rparr>,
                     after_polls self jid n w)))
 \<and> ((\<forall>i<n. now (after_polls self jid i w) - now w \<le> real_of_int timeout
            \<and> still_running (fst (client_get (after_polls self jid i w) (result_url self jid))))
     \<and> now (after_polls self jid n w) - now w \<le> real_of_int timeout
     \<and> get_reply w (polls w + n) (result_url self jid) = (lat, GetResponse 200 (Json v))
    \<longrightarrow> wait_for_job self jid timeout w =
          Some (Inr \<lparr>job_id = jid, job_status = ''completed'', job_result = v,
                     job_error = None,
                     duration_ms = py_int ((now (after_polls self jid n w) - now w) * 1000)\<rparr>,
                (after_polls self jid n w)
                  \<lparr>now := now (after_polls self jid n w) + lat, polls := polls w + n + 1\<rparr>))
 \<and> ((\<forall>i<n. now (after_polls self jid i w) - now w \<le> real_of_int timeout
            \<and> still_running (fst (client_get (after_polls self jid i w) (result_url self jid))))
     \<and> now (after_polls self jid n w) - now w \<le> real_of_int timeout
     \<and> get_reply w (polls w + n) (result_url self jid) = (lat, GetResponse code b)
     \<and> code \<noteq> 200 \<and> code \<noteq> 404
    \<longrightarrow> wait_for_job self jid timeout w =
          Some (Inr \<lparr>job_id = jid, job_status = ''failed'', job_result = VNone,
                     job_error = Some (''Unexpected status: '' @ str_nat code),
                     duration_ms = 0\<rparr>,
                (after_polls self jid n w)
                  \<lparr>now := now (after_polls self jid n w) + lat, polls := polls w + n + 1\<rparr>))"
proof (intro conjI impI)
  assume a: "(\<forall>i<n. now (after_polls self jid i w) - now w \<le> real_of_int timeout
            \<and> still_running (fst (client_get (after_polls self jid i w) (result_url self jid))))
     \<and> now (after_polls self jid n w) - now w > real_of_int timeout"
  then have skip: "poll_loop self jid timeout (now w) w =
      poll_loop self jid timeout (now w) (after_polls self jid n w)"
    by (intro poll_loop_skip) blast
  from a have "poll_loop self jid timeout (now w) (after_polls self jid n w) =
      Some (Inr (timeout_result jid timeout), after_polls self jid n w)"
    by (intro poll_loop_timeout) blast
  with skip show "wait_for_job self jid timeout w =
          Some (Inr \<lparr>job_id = jid, job_status = ''timeout'', job_result = VNone,
                     job_error = Some (''Job timed out after '' @ str_int timeout @ ''s''),
                     duration_ms = 0\<rparr>,
                after_polls self jid n w)"
    by (simp add: wait_for_job_def timeout_result_def)
  show "polls (after_polls self jid n w) = polls w + n"
    by (simp add: after_polls_fields)
next
  assume a: "\<forall>i. 0 \<le> fst (get_reply w i (result_url self jid))
          \<and> still_running (snd (get_reply w i (result_url self jid)))"
  then have "\<exists>n. poll_loop self jid timeout (now w) w =
              Some (Inr (timeout_result jid timeout), after_polls self jid n w)"
    by (intro poll_loop_gives_up) blast+
  then show "\<exists>n. wait_for_job self jid timeout w =
               Some (Inr \<lparr>job_id = jid, job_status = ''timeout'', job_result = VNone,
                          job_error = Some (''Job timed out after '' @ str_int timeout @ ''s''),
                          duration_ms = 0\<rparr>,
                     after_polls self jid n w)"
    by (simp add: wait_for_job_def timeout_result_def)
next
  let ?wn = "after_polls self jid n w"
  assume a: "(\<forall>i<n. now (after_polls self jid i w) - now w \<le> real_of_int timeout
            \<and> still_running (fst (client_get (after_polls self jid i w) (result_url self jid))))
     \<and> now ?wn - now w \<le> real_of_int timeout
     \<and> get_reply w (polls w + n) (result_url self jid) = (lat, GetResponse 200 (Json v))"
  then have skip: "poll_loop self jid timeout (now w) w = poll_loop self jid timeout (now w) ?wn"
    by (intro poll_loop_skip) blast
  from a have within: "now ?wn - now w \<le> real_of_int timeout" by blast
  from a have "get_reply ?wn (polls ?wn) (result_url self jid) = (lat, GetResponse 200 (Json v))"
    by (simp add: after_polls_fields)
  from poll_loop_completed [OF within client_get_reply [OF this]] skip
  show "wait_for_job self jid timeout w =
          Some (Inr \<lparr>job_id = jid, job_status = ''completed'', job_result = v,
                     job_error = None,
                     duration_ms = py_int ((now ?wn - now w) * 1000)\<rparr>,
                ?wn\<lparr>now := now ?wn + lat, polls := polls w + n + 1\<rparr>)"
    by (simp add: wait_for_job_def completed_result_def after_polls_fields)
next
  let ?wn = "after_polls self jid n w"
  assume a: "(\<forall>i<n. now (after_polls self jid i w) - now w \<le> real_of_int timeout
            \<and> still_running (fst (client_get (after_polls self jid i w) (result_url self jid))))
     \<and> now ?wn - now w \<le> real_of_int timeout
     \<and> get_reply w (polls w + n) (result_url self jid) = (lat, GetResponse code b)
     \<and> code \<noteq> 200 \<and> code \<noteq> 404"
  then have skip: "poll_loop self jid timeout (now w) w = poll_loop self jid timeout (now w) ?wn"
    by (intro poll_loop_skip) blast
  from a have within: "now ?wn - now w \<le> real_of_int timeout"
    and code: "code \<noteq> 200" "code \<noteq> 404" by blast+
  from a have "get_reply ?wn (polls ?wn) (result_url self jid) = (lat, GetResponse code b)"
    by (simp add: after_polls_fields)
  from poll_loop_unexpected [OF within client_get_reply [OF this] code] skip
  show "wait_for_job self jid timeout w =
          Some (Inr \<lparr>job_id = jid, job_status = ''failed'', job_result = VNone,
                     job_error = Some (''Unexpected status: '' @ str_nat code),
                     duration_ms = 0\<rparr>,
                ?wn\<lparr>now := now ?wn + lat, polls := polls w + n + 1\<rparr>)"
    by (simp add: wait_for_job_def unexpected_result_def after_polls_fields)
qed

theorem timeout_at_check_witness:
  "wait_for_job example_client ''job-1'' 1 never_world =
     Some (Inr \<lparr>job_id = ''job-1'', job_status = ''timeout'', job_result = VNone,
                job_error = Some ''Job timed out after 1s'', duration_ms = 0\<rparr>,
           never_world\<lparr>now := 3 / 2, polls := 1\<rparr>)
 \<and> polls (never_world\<lparr>now := 3 / 2, polls := 1\<rparr>) = polls never_world + 1
 \<and> (\<exists>n. wait_for_job example_client ''job-1'' 300 never_world =
          Some (Inr \<lparr>job_id = ''job-1'', job_status = ''timeout'', job_result = VNone,
                     job_error = Some ''Job timed out after 300s'', duration_ms = 0\<rparr>,
                after_polls example_client ''job-1'' n never_world))
 \<and> wait_for_job example_client ''job-1'' 2 late_world =
     Some (Inr \<lparr>job_id = ''job-1'', job_status = ''completed'', job_result = VInt 42,
                job_error = None, duration_ms = 0\<rparr>,
           late_world\<lparr>now := 5, polls := 1\<rparr>)
 \<and> now (late_world\<lparr>now := 5, polls := 1\<rparr>) - now late_world > real_of_int 2
 \<and> wait_for_job example_client ''job-1'' 0 broken_world =
     Some (Inr \<lparr>job_id = ''job-1'', job_status = ''failed'', job_result = VNone,
                job_error = Some ''Unexpected status: 500'', duration_ms = 0\<rparr>,
           broken_world\<lparr>now := 1 / 4, polls := 1\<rparr>)
 \<and> now (broken_world\<lparr>now := 1 / 4, polls := 1\<rparr>) - now broken_world > real_of_int 0"
proof -
  have before: "\<forall>i<Suc 0. now (after_polls example_client ''job-1'' i never_world) - now never_world
                  \<le> real_of_int 1
            \<and> still_running (fst (client_get (after_polls example_client ''job-1'' i never_world)
                                     (result_url example_client ''job-1'')))"
    by (simp add: client_get_def never_world_def)
  have late: "now (after_polls example_client ''job-1'' (Suc 0) never_world) - now never_world
                > real_of_int 1"
    by (simp add: never_world_after_one) (simp add: never_world_def)
  have always: "\<forall>i. 0 \<le> fst (get_reply never_world i (result_url example_client ''job-1''))
          \<and> still_running (snd (get_reply never_world i (result_url example_client ''job-1'')))"
    by (simp add: never_world_def)
  have s1: "str_int 1 = ''1''" and s300: "str_int 300 = ''300''"
    by (simp_all add: str_int_def str_nat.simps digit_char_def)
  have s500: "str_nat 500 = ''500''"
    by (simp add: str_nat.simps digit_char_def)
  note first = timeout_at_check [of "Suc 0" example_client "''job-1''" never_world 1, THEN conjunct1]
  note second = timeout_at_check [of 0 example_client "''job-1''" never_world 300,
      THEN conjunct2, THEN conjunct1]
  note third = timeout_at_check [of 0 example_client "''job-1''" late_world 2 5 "VInt 42",
      THEN conjunct2, THEN conjunct2, THEN conjunct1]
  note fourth = timeout_at_check [of 0 example_client "''job-1''" broken_world 0 "1 / 4" _ 500
      "NotJson ''internal error''", THEN conjunct2, THEN conjunct2, THEN conjunct2]
  from first before late have 1: "wait_for_job example_client ''job-1'' 1 never_world =
     Some (Inr \<lparr>job_id = ''job-1'', job_status = ''timeout'', job_result = VNone,
                job_error = Some ''Job timed out after 1s'', duration_ms = 0\<rparr>,
           never_world\<lparr>now := 3 / 2, polls := 1\<rparr>)"
    by (simp add: never_world_after_one s1)
  have 2: "polls (never_world\<lparr>now := 3 / 2, polls := 1\<rparr>) = polls never_world + 1"
    by (simp add: never_world_def)
  from second always have 3: "\<exists>n. wait_for_job example_client ''job-1'' 300 never_world =
          Some (Inr \<lparr>job_id = ''job-1'', job_status = ''timeout'', job_result = VNone,
                     job_error = Some ''Job timed out after 300s'', duration_ms = 0\<rparr>,
                after_polls example_client ''job-1'' n never_world)"
    by (simp add: s300)
  have g3: "get_reply late_world (polls late_world + 0) (result_url example_client ''job-1'') =
      (5, GetResponse 200 (Json (VInt 42)))"
    by (simp add: late_world_def)
  from third g3 have 4: "wait_for_job example_client ''job-1'' 2 late_world =
     Some (Inr \<lparr>job_id = ''job-1'', job_status = ''completed'', job_result = VInt 42,
                job_error = None, duration_ms = 0\<rparr>,
           late_world\<lparr>now := 5, polls := 1\<rparr>)"
    by (simp add: py_int_def) (simp add: late_world_def)
  have 5: "now (late_world\<lparr>now := 5, polls := 1\<rparr>) - now late_world > real_of_int 2"
    by (simp add: late_world_def)
  have g4: "get_reply broken_world (polls broken_world + 0) (result_url example_client ''job-1'') =
      (1 / 4, GetResponse 500 (NotJson ''internal error''))"
    by (simp add: broken_world_def)
  from fourth g4 have 6: "wait_for_job example_client ''job-1'' 0 broken_world =
     Some (Inr \<lparr>job_id = ''job-1'', job_status = ''failed'', job_result = VNone,
                job_error = Some ''Unexpected status: 500'', duration_ms = 0\<rparr>,
           broken_world\<lparr>now := 1 / 4, polls := 1\<rparr>)"
    by (simp add: s500) (simp add: broken_world_def)
  have 7: "now (broken_world\<lparr>now := 1 / 4, polls := 1\<rparr>) - now broken_world > real_of_int 0"
    by (simp add: broken_world_def)
  from 1 2 3 4 5 6 7 show ?thesis by blast
qed

text \<open>
  C6 as stated fails. With a budget of one second and a backend whose first answer, a
  200, arrives after five seconds, the elapsed time exceeds the budget before any terminal
  answer is seen, and the client returns the status completed: the budget is only checked
  before a query is sent. And where the client does time out, the error it reports is
  \<open>Job timed out after 1s\<close>, not \<open>timed out after 1\<close>.
\<close>

theorem late_answer_is_accepted:
  "wait_for_job example_client ''job-1'' 1 late_world =
     Some (Inr \<lparr>job_id = ''job-1'', job_status = ''completed'', job_result = VInt 42,
                job_error = None, duration_ms = 0\<rparr>,
           late_world\<lparr>now := 5, polls := 1\<rparr>)
 \<and> now (late_world\<lparr>now := 5, polls := 1\<rparr>) - now late_world > real_of_int 1
 \<and> wait_for_job example_client ''job-1'' 1 never_world =
     Some (Inr \<lparr>job_id = ''job-1'', job_status = ''timeout'', job_result = VNone,
                job_error = Some ''Job timed out after 1s'', duration_ms = 0\<rparr>,
           never_world\<lparr>now := 3 / 2, polls := 1\<rparr>)
 \<and> ''Job timed out after 1s'' \<noteq> ''timed out after 1''"
proof -
  have 1: "wait_for_job example_client ''job-1'' 1 late_world =
     Some (Inr \<lparr>job_id = ''job-1'', job_status = ''completed'', job_result = VInt 42,
                job_error = None, duration_ms = 0\<rparr>,
           late_world\<lparr>now := 5, polls := 1\<rparr>)"
    unfolding wait_for_job_def
    by (subst poll_loop.simps)
       (simp add: late_world_def client_get_def completed_result_def py_int_def)
  have 2: "now (late_world\<lparr>now := 5, polls := 1\<rparr>) - now late_world > real_of_int 1"
    by (simp add: late_world_def)
  have s1: "str_int 1 = ''1''"
    by (simp add: str_int_def str_nat.simps digit_char_def)
  have 3: "wait_for_job example_client ''job-1'' 1 never_world =
     Some (Inr \<lparr>job_id = ''job-1'', job_status = ''timeout'', job_result = VNone,
                job_error = Some ''Job timed out after 1s'', duration_ms = 0\<rparr>,
           never_world\<lparr>now := 3 / 2, polls := 1\<rparr>)"
    unfolding wait_for_job_def
    apply (subst poll_loop.simps)
    apply (simp add: never_world_def client_get_def sleep_def)
    apply (subst poll_loop.simps)
    apply (simp add: timeout_result_def s1)
    done
  from 1 2 3 show ?thesis by simp
qed




text \<open>
  C8: when the POST that submits the job raises an \<open>httpx.HTTPError\<close> (a transport error,
  or the status error that \<open>raise_for_status\<close> raises), \<open>run_script\<close> returns the status
  failed with the cause as error, after that one POST and without any status query.
\<close>

theorem submission_failure:
  assumes "post_reply w (posts w) (run_url self path) args = (latency, PostHTTPError cause)"
  shows "run_script self path args wait timeout w =
     Some (Inr \<lparr>job_id = '''', job_status = ''failed'', job_result = VNone,
                job_error = Some cause, duration_ms = 0\<rparr>,
           w\<lparr>now := now w + latency, posts := posts w + 1\<rparr>)
   \<and> polls (w\<lparr>now := now w + latency, posts := posts w + 1\<rparr>) = polls w"
  using assms by (simp add: run_script_def client_post_def)

theorem submission_failure_witness:
  "post_reply down_world (posts down_world) (run_url example_client ''f/job'') [(''c'', VInt 3)] =
     (1 / 2, PostHTTPError ''connection refused'')
 \<and> run_script example_client ''f/job'' [(''c'', VInt 3)] True 300 down_world =
     Some (Inr \<lparr>job_id = '''', job_status = ''failed'', job_result = VNone,
                job_error = Some ''connection refused'', duration_ms = 0\<rparr>,
           down_world\<lparr>now := 1 / 2, posts := 1\<rparr>)
 \<and> polls (down_world\<lparr>now := 1 / 2, posts := 1\<rparr>) = 0"
proof -
  have h: "post_reply down_world (posts down_world) (run_url example_client ''f/job'') [(''c'', VInt 3)] =
     (1 / 2, PostHTTPError ''connection refused'')"
    by (simp add: down_world_def)
  from h submission_failure [OF h, of True 300] show ?thesis
    by (simp add: down_world_def)
qed

text \<open>
  C9: a step without \<open>script_path\<close> whose dependencies all have results completes
  without touching the world, so without a remote call. Its result is the dictionary of
  its \<open>input_params\<close> in which every key \<open>step_<id>_result\<close> of a dependency holds that
  dependency's result and every other key is as the caller gave it; the scheduler marks
  the step completed, records that result and goes on to the next step.
\<close>

theorem passthrough_step:
  assumes "script_path step = None" and "check_dependencies step prev"
  shows "execute_step wc step prev w = Some (Inr (VDict (prepared_input step prev)), w)
       \<and> (\<forall>d \<in> set (depends_on step).
             dict_get (prepared_input step prev) (result_key d) = prev d \<and> prev d \<noteq> None)
       \<and> (\<forall>k. k \<notin> result_key ` set (depends_on step) \<longrightarrow>
             dict_get (prepared_input step prev) k = dict_get (input_params step) k)
       \<and> (step_results st = prev \<longrightarrow>
            execute_steps wc (step # rest) st w =
              map_option
                (\<lambda>(rest', st2, w2).
                   (step\<lparr>step_status := COMPLETED,
                         step_result := VDict (prepared_input step prev)\<rparr> # rest', st2, w2))
                (execute_steps wc rest
                   (st\<lparr>step_results := prev(step_number step \<mapsto> VDict (prepared_input step prev)),
                       completed_steps := completed_steps st + 1,
                       final_result := VDict (prepared_input step prev)\<rparr>) w))"
proof -
  have 1: "execute_step wc step prev w = Some (Inr (VDict (prepared_input step prev)), w)"
    using assms(1) by (simp add: execute_step_def)
  have 2: "\<forall>d \<in> set (depends_on step).
             dict_get (prepared_input step prev) (result_key d) = prev d \<and> prev d \<noteq> None"
  proof
    fix d assume d: "d \<in> set (depends_on step)"
    with assms(2) obtain v where v: "prev d = Some v"
      by (auto simp: check_dependencies_iff)
    from inject_dep [of d "depends_on step" prev v "input_params step"] d v
    show "dict_get (prepared_input step prev) (result_key d) = prev d \<and> prev d \<noteq> None"
      by (simp add: dict_get_def prepared_input_def)
  qed
  have 3: "\<forall>k. k \<notin> result_key ` set (depends_on step) \<longrightarrow>
             dict_get (prepared_input step prev) k = dict_get (input_params step) k"
    by (auto simp: dict_get_def prepared_input_def intro!: inject_other)
  have 4: "step_results st = prev \<longrightarrow>
            execute_steps wc (step # rest) st w =
              map_option
                (\<lambda>(rest', st2, w2).
                   (step\<lparr>step_status := COMPLETED,
                         step_result := VDict (prepared_input step prev)\<rparr> # rest', st2, w2))
                (execute_steps wc rest
                   (st\<lparr>step_results := prev(step_number step \<mapsto> VDict (prepared_input step prev)),
                       completed_steps := completed_steps st + 1,
                       final_result := VDict (prepared_input step prev)\<rparr>) w)"
  proof
    assume st: "step_results st = prev"
    from 1 have ex: "execute_step wc (step\<lparr>step_status := EXECUTING\<rparr>) (step_results st) w
        = Some (Inr (VDict (prepared_input step prev)), w)"
      by (simp add: execute_step_status st)
    from assms(2) st have dep: "check_dependencies step (step_results st)" by simp
    show "execute_steps wc (step # rest) st w =
              map_option
                (\<lambda>(rest', st2, w2).
                   (step\<lparr>step_status := COMPLETED,
                         step_result := VDict (prepared_input step prev)\<rparr> # rest', st2, w2))
                (execute_steps wc rest
                   (st\<lparr>step_results := prev(step_number step \<mapsto> VDict (prepared_input step prev)),
                       completed_steps := completed_steps st + 1,
                       final_result := VDict (prepared_input step prev)\<rparr>) w)"
      unfolding execute_steps_Cons_ok [OF dep ex] st
      by (auto split: option.splits)
  qed
  from 1 2 3 4 show ?thesis by blast
qed

theorem passthrough_step_witness:
  "script_path step_b = None \<and> check_dependencies step_b results_1
 \<and> execute_step example_client step_b results_1 down_world =
     Some (Inr (VDict [(''step_1_result'', VDict [(''a'', VInt 1)]), (''b'', VInt 2)]), down_world)
 \<and> dict_get (prepared_input step_b results_1) ''step_1_result'' = Some (VDict [(''a'', VInt 1)])
 \<and> dict_get (prepared_input step_b results_1) ''b'' = Some (VInt 2)
 \<and> execute_steps example_client [step_b] (initial_state\<lparr>step_results := results_1\<rparr>) down_world =
     Some ([step_b\<lparr>step_status := COMPLETED,
                   step_result := VDict [(''step_1_result'', VDict [(''a'', VInt 1)]), (''b'', VInt 2)]\<rparr>],
           initial_state
             \<lparr>step_results := results_1(2 \<mapsto> VDict [(''step_1_result'', VDict [(''a'', VInt 1)]), (''b'', VInt 2)]),
              completed_steps := 1,
              final_result := VDict [(''step_1_result'', VDict [(''a'', VInt 1)]), (''b'', VInt 2)]\<rparr>,
           down_world)"
proof -
  have h1: "script_path step_b = None" by (simp add: step_b_def new_step_def)
  have h2: "check_dependencies step_b results_1"
    by (simp add: step_b_def new_step_def check_dependencies_def results_1_def)
  have inp: "prepared_input step_b results_1 =
      [(''step_1_result'', VDict [(''a'', VInt 1)]), (''b'', VInt 2)]"
    by (simp add: eval_defs)
  have deps: "depends_on step_b = [1]" "step_number step_b = 2"
    by (simp_all add: step_b_def new_step_def)
  have key: "result_key 1 = ''step_1_result''"
    by (simp add: result_key_def str_int_def str_nat.simps digit_char_def)
  have st: "step_results (initial_state\<lparr>step_results := results_1\<rparr>) = results_1" by simp
  note claim = passthrough_step [OF h1 h2, of example_client down_world
      "initial_state\<lparr>step_results := results_1\<rparr>" "[]"]
  note c1 = claim [THEN conjunct1]
  note c2 = claim [THEN conjunct2, THEN conjunct1]
  note c3 = claim [THEN conjunct2, THEN conjunct2, THEN conjunct1]
  note c4 = claim [THEN conjunct2, THEN conjunct2, THEN conjunct2]
  from c1 have 1: "execute_step example_client step_b results_1 down_world =
     Some (Inr (VDict [(''step_1_result'', VDict [(''a'', VInt 1)]), (''b'', VInt 2)]), down_world)"
    by (simp add: inp)
  from c2 have 2: "dict_get (prepared_input step_b results_1) ''step_1_result'' = Some (VDict [(''a'', VInt 1)])"
    by (simp add: deps key results_1_def)
  from c3 have "dict_get (prepared_input step_b results_1) ''b'' = dict_get (input_params step_b) ''b''"
    by (simp add: deps key)
  then have 3: "dict_get (prepared_input step_b results_1) ''b'' = Some (VInt 2)"
    by (simp add: step_b_def new_step_def dict_get_def)
  from c4 st have 4: "execute_steps example_client [step_b] (initial_state\<lparr>step_results := results_1\<rparr>) down_world =
     Some ([step_b\<lparr>step_status := COMPLETED,
                   step_result := VDict [(''step_1_result'', VDict [(''a'', VInt 1)]), (''b'', VInt 2)]\<rparr>],
           initial_state
             \<lparr>step_results := results_1(2 \<mapsto> VDict [(''step_1_result'', VDict [(''a'', VInt 1)]), (''b'', VInt 2)]),
              completed_steps := 1,
              final_result := VDict [(''step_1_result'', VDict [(''a'', VInt 1)]), (''b'', VInt 2)]\<rparr>,
           down_world)"
    by (simp add: inp deps initial_state_def del: execute_steps.simps(2))
  from h1 h2 1 2 3 4 show ?thesis by blast
qed

text \<open>
  C10: on a plan without steps \<open>_execute_plan\<close> returns a response with status completed,
  no step completed out of no step, no result and no error, and the plan differs from the
  one it was given only in its status, which is executing.
\<close>

theorem execute_plan_empty:
  "steps plan = [] \<Longrightarrow>
   execute_plan wc plan w =
     Some (\<lparr>resp_task_id = task_id plan, resp_status = COMPLETED, resp_result = VNone,
            resp_error = None, execution_time_ms = 0, steps_completed = 0, total_steps = 0\<rparr>,
           plan\<lparr>plan_status := EXECUTING\<rparr>, w)"
  by (simp add: execute_plan_def initial_state_def py_int_def)

theorem execute_plan_empty_witness:
  "steps (new_plan []) = [] \<and>
   execute_plan example_client (new_plan []) ready_world =
     Some (\<lparr>resp_task_id = ''task-1'', resp_status = COMPLETED, resp_result = VNone,
            resp_error = None, execution_time_ms = 0, steps_completed = 0, total_steps = 0\<rparr>,
           (new_plan [])\<lparr>plan_status := EXECUTING\<rparr>, ready_world)"
proof -
  have h: "steps (new_plan []) = []" by (simp add: new_plan_def)
  show ?thesis using h execute_plan_empty [OF h, of example_client ready_world]
    by (simp add: new_plan_def)
qed

end
